theory Spec2Isabelle
  imports Complex_Main
begin

section \<open>Air-quality mock service: generators, catalog and chart projections\<close>

text \<open>
  A shallow embedding of \<^verbatim>\<open>src/Kavish/main.py\<close>.

  Conventions of the embedding.
  \<^item> Python floats are modelled as reals: arithmetic is exact, and \<^verbatim>\<open>round(x, 2)\<close>
    is rounding to two decimals with ties going to the even hundredth. The rounding error
    of double arithmetic is not part of the model.
  \<^item> The process-wide random source and the wall clock are explicit state: the sequence of
    the future results of \<^verbatim>\<open>random.random()\<close> and the sequence of the future readings of
    \<^verbatim>\<open>datetime.utcnow()\<close> (microseconds). Every call of either consumes one element.
  \<^item> A \<^verbatim>\<open>datetime\<close> is either naive or timezone-aware; an order comparison of a naive
    with an aware one raises \<^verbatim>\<open>TypeError\<close>. The calendar range of \<^verbatim>\<open>datetime\<close>
    (years 1 to 9999) is not modelled: instants are unbounded integers.
  \<^item> Strings are byte lists; \<^verbatim>\<open>str.upper()\<close> is modelled on the ASCII letters.
  \<^item> The dictionaries built by the generators have a fixed key set and are modelled as
    records; fields carry a prefix because record fields share one name space.
  \<^item> Titles and axis labels of the charts are presentation only and are left out.
\<close>

subsection \<open>Errors, time, the world\<close>

datatype py_error = ZeroDivisionError | TypeError | ValueError

datatype datetime = Naive int | Aware int int
  \<comment> \<open>\<open>Naive t\<close>: wall-clock microseconds; \<open>Aware t off\<close>: the UTC instant and the offset\<close>

fun micros :: "datetime \<Rightarrow> int" where
  "micros (Naive t) = t"
| "micros (Aware t off) = t"

definition hour_us :: int where
  "hour_us = 3600000000"

fun plus_hours :: "datetime \<Rightarrow> int \<Rightarrow> datetime" where
  "plus_hours (Naive t) h = Naive (t + h * hour_us)"
| "plus_hours (Aware t off) h = Aware (t + h * hour_us) off"

fun dt_ge :: "datetime \<Rightarrow> datetime \<Rightarrow> py_error + bool" where
  "dt_ge (Naive a) (Naive b) = Inr (b \<le> a)"
| "dt_ge (Aware a oa) (Aware b ob) = Inr (b \<le> a)"
| "dt_ge (Naive a) (Aware b ob) = Inl TypeError"
| "dt_ge (Aware a oa) (Naive b) = Inl TypeError"

record world =
  clock :: "nat \<Rightarrow> int"
  rng :: "nat \<Rightarrow> real"

definition utcnow :: "world \<Rightarrow> datetime \<times> world" where
  "utcnow w = (Naive (clock w 0), w\<lparr>clock := (\<lambda>n. clock w (Suc n))\<rparr>)"

definition random :: "world \<Rightarrow> real \<times> world" where
  "random w = (rng w 0, w\<lparr>rng := (\<lambda>n. rng w (Suc n))\<rparr>)"

definition uniform :: "real \<Rightarrow> real \<Rightarrow> world \<Rightarrow> real \<times> world" where
  "uniform a b w = (let (u, w1) = random w in (a + (b - a) * u, w1))"

text \<open>The draws of \<^verbatim>\<open>random.random()\<close> lie in the half-open unit interval.\<close>

definition unit_draws :: "world \<Rightarrow> bool" where
  "unit_draws w = (\<forall>n. 0 \<le> rng w n \<and> rng w n < 1)"


subsection \<open>Rounding and strings\<close>

definition round_half_even :: "real \<Rightarrow> int" where
  "round_half_even x =
     (let f = \<lfloor>x\<rfloor>; d = x - of_int f
      in if d < 1 / 2 then f else if 1 / 2 < d then f + 1
         else if even f then f else f + 1)"

definition round2 :: "real \<Rightarrow> real" where
  "round2 x = of_int (round_half_even (x * 100)) / 100"

definition upper_char :: "char \<Rightarrow> char" where
  "upper_char c =
     (let n = (of_char c :: nat)
      in if 97 \<le> n \<and> n \<le> 122 then char_of (n - 32) else c)"

definition upper :: "string \<Rightarrow> string" where
  "upper s = map upper_char s"

definition startswith :: "string \<Rightarrow> string \<Rightarrow> bool" where
  "startswith s p = (take (length p) s = p)"

subsection \<open>Risk scores\<close>

record risk_score =
  rs_pollutant :: string
  score_0_100 :: real
  category :: string
  threshold_used :: real

definition risk_step :: "risk_score list \<times> world \<Rightarrow> string \<Rightarrow> risk_score list \<times> world" where
  "risk_step acc pollutant =
     (let (scores, w) = acc;
          (r, w1) = uniform 10 90 w;
          score = round2 r;
          cat = (if score < 33 then ''Low'' else if score < 66 then ''Moderate'' else ''High'');
          threshold = (if startswith pollutant ''PM'' then 50 else 40)
      in (scores @ [\<lparr>rs_pollutant = pollutant, score_0_100 = score, category = cat,
                     threshold_used = threshold\<rparr>], w1))"

definition generate_risk_scores :: "string \<Rightarrow> world \<Rightarrow> risk_score list \<times> world" where
  "generate_risk_scores region w =
     foldl risk_step ([], w) [''PM2.5'', ''PM10'', ''NO2'', ''O3'']"

subsection \<open>Forecasts\<close>

record forecast_point =
  fp_ts :: datetime
  fp_value :: real
  ci_lower :: real
  ci_upper :: real
  model_version :: string

definition iso_now_plus :: "int \<Rightarrow> world \<Rightarrow> datetime \<times> world" where
  "iso_now_plus hours w = (let (now, w1) = utcnow w in (plus_hours now hours, w1))"

definition forecast_base :: "string \<Rightarrow> real" where
  "forecast_base pollutant = (if startswith (upper pollutant) ''PM'' then 80 else 30)"

definition forecast_step ::
  "real \<Rightarrow> forecast_point list \<times> world \<Rightarrow> nat \<Rightarrow> forecast_point list \<times> world" where
  "forecast_step base acc h =
     (let (out, w) = acc;
          (ts, w1) = iso_now_plus (int h) w;
          (u, w2) = random w1;
          noise = (sin (real h / 6) + u * (6 / 10)) * 10;
          val = max 0 (round2 (base + noise))
      in (out @ [\<lparr>fp_ts = ts, fp_value = val, ci_lower = max 0 (round2 (val - 8)),
                  ci_upper = round2 (val + 8), model_version = ''mock-v0.3''\<rparr>], w2))"

definition generate_forecasts ::
  "string option \<Rightarrow> string \<Rightarrow> int \<Rightarrow> world \<Rightarrow> forecast_point list \<times> world" where
  "generate_forecasts station_id pollutant hours w =
     foldl (forecast_step (forecast_base pollutant)) ([], w) [0..<nat hours]"

subsection \<open>Observed time series\<close>




subsection \<open>Source attribution\<close>

record attribution_breakdown =
  source :: string
  contribution_percent :: real
  ab_value :: real

record attribution =
  at_pollutant :: string
  total :: real
  breakdown :: "attribution_breakdown list"

definition draw_step :: "real list \<times> world \<Rightarrow> string \<Rightarrow> real list \<times> world" where
  "draw_step acc s = (let (vals, w) = acc; (v, w1) = uniform 10 40 w in (vals @ [v], w1))"

text \<open>The loop over \<^verbatim>\<open>zip(sources, vals)\<close>; the float division raises on a zero total.\<close>

fun breakdown_loop :: "real \<Rightarrow> (string \<times> real) list \<Rightarrow> py_error + attribution_breakdown list" where
  "breakdown_loop tot [] = Inr []"
| "breakdown_loop tot ((s, v) # rest) =
     (if tot = 0 then Inl ZeroDivisionError
      else (case breakdown_loop tot rest of
              Inl e \<Rightarrow> Inl e
            | Inr bs \<Rightarrow>
                Inr (\<lparr>source = s, contribution_percent = round2 ((v / tot) * 100),
                      ab_value = round2 ((v / tot) * 100)\<rparr> # bs)))"

text \<open>Lines 170 to 175 of the generator: everything after the magnitudes are drawn.\<close>

definition attribution_from_vals :: "string \<Rightarrow> string list \<Rightarrow> real list \<Rightarrow> py_error + attribution" where
  "attribution_from_vals pollutant sources vals =
     (let tot = sum_list vals
      in case breakdown_loop tot (zip sources vals) of
           Inl e \<Rightarrow> Inl e
         | Inr bs \<Rightarrow> Inr \<lparr>at_pollutant = pollutant, total = round2 tot, breakdown = bs\<rparr>)"

definition attribution_sources :: "string list" where
  "attribution_sources = [''Traffic'', ''Industry'', ''Construction'', ''Residential'', ''Natural'']"

definition generate_attribution :: "string \<Rightarrow> world \<Rightarrow> (py_error + attribution) \<times> world" where
  "generate_attribution pollutant w =
     (let (vals, w1) = foldl draw_step ([], w) attribution_sources
      in (attribution_from_vals pollutant attribution_sources vals, w1))"

subsection \<open>The static catalog\<close>

record sensor =
  sn_pollutant :: string
  sn_unit :: string
  sensor_id :: string

record station =
  station_id :: string
  name :: string
  lat :: real
  lon :: real
  region :: string
  tags :: "string list"
  sensors :: "sensor list option"

record alert_record =
  alert_id :: string
  al_station_id :: string
  al_pollutant :: string
  threshold :: real
  observed_value :: real
  al_ts :: datetime
  status :: string

definition STATIONS :: "station list" where
  "STATIONS =
     [\<lparr>station_id = ''ST-DEL-001'', name = ''Delhi - ITO'', lat = 286353 / 10000,
       lon = 7722496 / 100000, region = ''Delhi NCR'', tags = [''urban''],
       sensors = Some [\<lparr>sn_pollutant = ''PM2.5'', sn_unit = ''ug/m3'', sensor_id = ''S1''\<rparr>,
                       \<lparr>sn_pollutant = ''NO2'', sn_unit = ''ppb'', sensor_id = ''S2''\<rparr>]\<rparr>,
      \<lparr>station_id = ''ST-DEL-002'', name = ''Gurgaon - Sector 14'', lat = 284674 / 10000,
       lon = 770266 / 10000, region = ''Delhi NCR'', tags = [''suburban''],
       sensors = Some [\<lparr>sn_pollutant = ''PM2.5'', sn_unit = ''ug/m3'', sensor_id = ''S3''\<rparr>]\<rparr>]"

text \<open>The seeded alert is stamped with the clock reading \<open>t0\<close> taken when the module loads.\<close>

definition ALERTS :: "int \<Rightarrow> alert_record list" where
  "ALERTS t0 =
     [\<lparr>alert_id = ''A-001'', al_station_id = ''ST-DEL-001'', al_pollutant = ''PM2.5'',
       threshold = 60, observed_value = 82, al_ts = Naive t0, status = ''active''\<rparr>]"

text \<open>\<^verbatim>\<open>xs[start:stop]\<close>: a negative index counts from the end, both ends are clamped.\<close>

definition slice_index :: "nat \<Rightarrow> int \<Rightarrow> nat" where
  "slice_index n i = (if i < 0 then nat (max (i + int n) 0) else min (nat i) n)"

definition py_slice :: "'a list \<Rightarrow> int \<Rightarrow> int \<Rightarrow> 'a list" where
  "py_slice xs start stop =
     (let b = slice_index (length xs) start; e = slice_index (length xs) stop
      in take (e - b) (drop b xs))"

text \<open>
  The list endpoints read the module-level lists \<^verbatim>\<open>_STATIONS\<close> and \<^verbatim>\<open>_ALERTS\<close>; the
  embedding passes them as the first arguments, so that their properties are stated for
  every catalog. \<^verbatim>\<open>if region:\<close> tests the truth value of an optional string: \<^verbatim>\<open>None\<close>
  and the empty string are both false. A \<^verbatim>\<open>datetime\<close> is always true, so \<^verbatim>\<open>if since:\<close>
  only tests for \<^verbatim>\<open>None\<close>.
\<close>

definition list_stations :: "station list \<Rightarrow> string option \<Rightarrow> int \<Rightarrow> int \<Rightarrow> station list" where
  "list_stations stations rg limit offset =
     (let results =
            (case rg of
               None \<Rightarrow> stations
             | Some r \<Rightarrow> if r = [] then stations else filter (\<lambda>s. region s = r) stations)
      in py_slice results offset (offset + limit))"

fun since_filter :: "datetime \<Rightarrow> alert_record list \<Rightarrow> py_error + alert_record list" where
  "since_filter since [] = Inr []"
| "since_filter since (a # rest) =
     (case dt_ge (al_ts a) since of
        Inl e \<Rightarrow> Inl e
      | Inr keep \<Rightarrow>
          (case since_filter since rest of
             Inl e \<Rightarrow> Inl e
           | Inr out \<Rightarrow> Inr (if keep then a # out else out)))"

definition list_alerts ::
  "station list \<Rightarrow> alert_record list \<Rightarrow> string option \<Rightarrow> datetime option
     \<Rightarrow> py_error + alert_record list" where
  "list_alerts stations alerts rg since =
     (let out =
            (case rg of
               None \<Rightarrow> alerts
             | Some r \<Rightarrow>
                 if r = [] then alerts
                 else filter (\<lambda>a. list_ex (\<lambda>s. region s = r \<and> station_id s = al_station_id a)
                                stations) alerts)
      in case since of None \<Rightarrow> Inr out | Some c \<Rightarrow> since_filter c out)"

subsection \<open>The forecast endpoint\<close>



subsection \<open>Chart projections\<close>





















section \<open>Auxiliary definitions for the properties\<close>

text \<open>The world after \<open>n\<close> clock readings and \<open>n\<close> draws.\<close>

definition advance :: "nat \<Rightarrow> world \<Rightarrow> world" where
  "advance n w = w\<lparr>clock := (\<lambda>k. clock w (k + n)), rng := (\<lambda>k. rng w (k + n))\<rparr>"

text \<open>
  Concrete worlds for the evaluated instances: a clock that advances by one microsecond
  per reading with draws \<open>0.1, 0.5, 0.9, 0.9, \<dots>\<close>, and a clock that stands still.
\<close>

definition w_demo :: world where
  "w_demo = \<lparr>clock = (\<lambda>n. int n),
             rng = (\<lambda>n. if n = 0 then 1 / 10 else if n = 1 then 1 / 2 else 9 / 10)\<rparr>"

definition w_still :: world where
  "w_still = \<lparr>clock = (\<lambda>n. 0), rng = (\<lambda>n. 1 / 2)\<rparr>"

text \<open>The point that iteration \<open>h\<close> of the forecast loop builds from the world \<open>w\<close>.\<close>

definition forecast_at :: "real \<Rightarrow> world \<Rightarrow> nat \<Rightarrow> forecast_point" where
  "forecast_at base w h =
     (let val = max 0 (round2 (base + (sin (real h / 6) + rng w h * (6 / 10)) * 10))
      in \<lparr>fp_ts = Naive (clock w h + int h * hour_us), fp_value = val,
          ci_lower = max 0 (round2 (val - 8)), ci_upper = round2 (val + 8),
          model_version = ''mock-v0.3''\<rparr>)"


text \<open>The breakdown entry of one source, for a non-zero total.\<close>

definition share_of :: "real \<Rightarrow> string \<times> real \<Rightarrow> attribution_breakdown" where
  "share_of tot sv =
     \<lparr>source = fst sv, contribution_percent = round2 ((snd sv / tot) * 100),
      ab_value = round2 ((snd sv / tot) * 100)\<rparr>"

text \<open>A region filter is in force: the argument is a non-empty string.\<close>

definition region_given :: "string option \<Rightarrow> string \<Rightarrow> bool" where
  "region_given rg r = (rg = Some r \<and> r \<noteq> [])"

text \<open>The station that the alert refers to exists and lies in the region.\<close>

definition station_in_region :: "station list \<Rightarrow> string \<Rightarrow> alert_record \<Rightarrow> bool" where
  "station_in_region stations r a =
     (\<exists>s \<in> set stations. region s = r \<and> station_id s = al_station_id a)"

text \<open>The seeded alert together with an alert for a station that is not in the catalog.\<close>

definition demo_alerts :: "alert_record list" where
  "demo_alerts = ALERTS 100 @
     [\<lparr>alert_id = ''A-002'', al_station_id = ''ST-MUM-001'', al_pollutant = ''NO2'',
       threshold = 40, observed_value = 55, al_ts = Naive 50, status = ''active''\<rparr>]"

definition category_ok :: "risk_score \<Rightarrow> bool" where
  "category_ok s =
     ((category s = ''Low'') = (score_0_100 s < 33) \<and>
      (category s = ''Moderate'') = (33 \<le> score_0_100 s \<and> score_0_100 s < 66) \<and>
      (category s = ''High'') = (66 \<le> score_0_100 s) \<and>
      category s \<in> {''Low'', ''Moderate'', ''High''})"

section \<open>Rounding\<close>

lemma round2_eval:
  "round2 18 = 18" "round2 50 = 50" "round2 82 = 82"
  "round2 48 = 48" "round2 80 = 80" "round2 112 = 112"
  "round2 20 = 20" "round2 125 = 125"
  by (simp_all add: round2_def round_half_even_def Let_def)

lemma round_half_even_of_int: "round_half_even (of_int k) = k"
  by (simp add: round_half_even_def)



lemma round_half_even_error: "\<bar>of_int (round_half_even y) - y\<bar> \<le> 1 / 2"
proof -
  have "of_int \<lfloor>y\<rfloor> \<le> y" "y < of_int \<lfloor>y\<rfloor> + 1" by linarith+
  then show ?thesis
    unfolding round_half_even_def Let_def
    by (cases "y - of_int \<lfloor>y\<rfloor> < 1 / 2"; cases "1 / 2 < y - of_int \<lfloor>y\<rfloor>";
        cases "even \<lfloor>y\<rfloor>"; simp add: abs_if; linarith?)
qed

lemma round2_hundredths: "round2 (of_int k / 100) = of_int k / 100"
  by (simp add: round2_def round_half_even_of_int)

lemma round2_is_hundredths: "\<exists>k. round2 x = of_int k / 100"
  by (auto simp: round2_def)

lemma round2_error: "\<bar>round2 x - x\<bar> \<le> 1 / 200"
proof -
  have "\<bar>of_int (round_half_even (x * 100)) - x * 100\<bar> \<le> 1 / 2"
    by (rule round_half_even_error)
  then show ?thesis by (simp add: round2_def abs_if field_simps split: if_splits)
qed



section \<open>The generator loops in closed form\<close>

lemma advance_0: "advance 0 w = w"
  by (simp add: advance_def)



lemma forecast_step_advance:
  "forecast_step base (out, advance n w) n = (out @ [forecast_at base w n], advance (Suc n) w)"
  by (simp add: forecast_step_def iso_now_plus_def utcnow_def random_def forecast_at_def
      advance_def Let_def)

lemma foldl_forecast_step:
  "foldl (forecast_step base) ([], w) [0..<n] = (map (forecast_at base w) [0..<n], advance n w)"
proof (induction n)
  case 0
  show ?case by (simp add: advance_0)
next
  case (Suc n)
  then show ?case by (simp add: forecast_step_advance)
qed

lemma generate_forecasts_eq:
  "generate_forecasts sid p hours w =
     (map (forecast_at (forecast_base p) w) [0..<nat hours], advance (nat hours) w)"
  by (simp add: generate_forecasts_def foldl_forecast_step)





section \<open>Forecast points\<close>




lemma forecast_at_bounds:
  "0 \<le> fp_value (forecast_at base w h) \<and>
   ci_upper (forecast_at base w h) = fp_value (forecast_at base w h) + 8 \<and>
   ci_lower (forecast_at base w h) = max 0 (fp_value (forecast_at base w h) - 8)"
proof -
  define x where "x = base + (sin (real h / 6) + rng w h * (6 / 10)) * 10"
  define val where "val = max 0 (round2 x)"
  have "\<exists>k. val = of_int k / 100"
  proof (cases "0 \<le> round2 x")
    case True
    then show ?thesis using round2_is_hundredths [of x] by (simp add: val_def max_def)
  next
    case False
    then have "val = of_int 0 / 100" by (simp add: val_def max_def)
    then show ?thesis by blast
  qed
  then obtain k where k: "val = of_int k / 100" ..
  have up: "round2 (val + 8) = val + 8"
  proof -
    have "val + 8 = of_int (k + 800) / 100" by (simp add: k)
    then show ?thesis by (metis round2_hundredths)
  qed
  have lo: "round2 (val - 8) = val - 8"
  proof -
    have "val - 8 = of_int (k - 800) / 100" by (simp add: k)
    then show ?thesis by (metis round2_hundredths)
  qed
  have "0 \<le> val" by (simp add: val_def)
  then show ?thesis
    using up lo unfolding val_def x_def forecast_at_def Let_def by simp
qed

lemma still_forecast:
  "fst (generate_forecasts None ''PM2.5'' 1 w_still) =
     [\<lparr>fp_ts = Naive 0, fp_value = 83, ci_lower = 75, ci_upper = 91,
       model_version = ''mock-v0.3''\<rparr>]"
  by (simp add: generate_forecasts_eq forecast_at_def forecast_base_def upper_def upper_char_def
      startswith_def w_still_def round2_def round_half_even_def Let_def)

text \<open>
  C6. Every forecast point satisfies \<open>0 \<le> ci_lower \<le> value \<le> ci_upper\<close>: the value is
  floored at zero, the upper bound is the value plus 8, and the lower bound is the value
  minus 8, floored at zero.
\<close>

theorem forecast_confidence_band:
  "pt \<in> set (fst (generate_forecasts sid p N w)) \<Longrightarrow>
     0 \<le> ci_lower pt \<and> ci_lower pt \<le> fp_value pt \<and> fp_value pt \<le> ci_upper pt \<and>
     0 \<le> fp_value pt \<and> ci_upper pt = fp_value pt + 8 \<and>
     ci_lower pt = max 0 (fp_value pt - 8)"
proof -
  assume "pt \<in> set (fst (generate_forecasts sid p N w))"
  then obtain h where "pt = forecast_at (forecast_base p) w h"
    by (auto simp: generate_forecasts_eq)
  then show ?thesis
    using forecast_at_bounds [of "forecast_base p" w h] by (simp add: max_def)
qed

theorem forecast_confidence_band_witness:
  "fst (generate_forecasts None ''PM2.5'' 1 w_still) ! 0
     \<in> set (fst (generate_forecasts None ''PM2.5'' 1 w_still)) \<and>
   fp_value (fst (generate_forecasts None ''PM2.5'' 1 w_still) ! 0) = 83 \<and>
   ci_lower (fst (generate_forecasts None ''PM2.5'' 1 w_still) ! 0) = 75 \<and>
   ci_upper (fst (generate_forecasts None ''PM2.5'' 1 w_still) ! 0) = 91 \<and>
   0 \<le> ci_lower (fst (generate_forecasts None ''PM2.5'' 1 w_still) ! 0) \<and>
   ci_lower (fst (generate_forecasts None ''PM2.5'' 1 w_still) ! 0)
     \<le> fp_value (fst (generate_forecasts None ''PM2.5'' 1 w_still) ! 0) \<and>
   fp_value (fst (generate_forecasts None ''PM2.5'' 1 w_still) ! 0)
     \<le> ci_upper (fst (generate_forecasts None ''PM2.5'' 1 w_still) ! 0)"
  using forecast_confidence_band
    [of "fst (generate_forecasts None ''PM2.5'' 1 w_still) ! 0" None "''PM2.5''" 1 w_still]
  by (simp add: still_forecast)

section \<open>Observed points\<close>




section \<open>Source attribution\<close>

lemma breakdown_loop_nonzero:
  "tot \<noteq> 0 \<Longrightarrow> breakdown_loop tot svs = Inr (map (share_of tot) svs)"
  by (induction svs) (auto simp: share_of_def)


lemma drawn_vals:
  "fst (foldl draw_step ([], w) attribution_sources) = map (\<lambda>i. 10 + 30 * rng w i) [0..<5]"
  by (simp add: attribution_sources_def draw_step_def uniform_def random_def Let_def
      eval_nat_numeral)

lemma sum_list_round2:
  "\<bar>sum_list (map round2 xs) - sum_list xs\<bar> \<le> real (length xs) / 200"
proof (induction xs)
  case Nil
  show ?case by simp
next
  case (Cons x xs)
  have "\<bar>round2 x - x\<bar> \<le> 1 / 200" by (rule round2_error)
  with Cons show ?case by (simp add: field_simps abs_if split: if_splits)
qed

lemma sum_list_shares:
  "sum_list (map (\<lambda>v. (v / t) * 100) vs) = (sum_list vs / t) * (100::real)"
  by (induction vs) (simp_all add: add_divide_distrib distrib_right)

lemma sum_list_ge:
  "\<forall>v \<in> set vs. c \<le> v \<Longrightarrow> real (length vs) * c \<le> sum_list vs"
  for vs :: "real list"
  by (induction vs) (auto simp: algebra_simps)


lemma drawn_total:
  assumes "unit_draws w"
  shows "50 \<le> sum_list (fst (foldl draw_step ([], w) attribution_sources))"
proof -
  have "\<forall>v \<in> set (map (\<lambda>i. 10 + 30 * rng w i) [0..<5]). 10 \<le> v"
    using assms by (auto simp: unit_draws_def)
  then have "real (length (map (\<lambda>i. 10 + 30 * rng w i) [0..<5])) * 10
             \<le> sum_list (map (\<lambda>i. 10 + 30 * rng w i) [0..<5])"
    by (rule sum_list_ge)
  then show ?thesis by (simp add: drawn_vals)
qed

lemma generate_attribution_eq:
  assumes "unit_draws w"
  defines "vals \<equiv> fst (foldl draw_step ([], w) attribution_sources)"
  shows "fst (generate_attribution p w) =
           Inr \<lparr>at_pollutant = p, total = round2 (sum_list vals),
                breakdown = map (share_of (sum_list vals)) (zip attribution_sources vals)\<rparr>"
proof -
  have "sum_list vals \<noteq> 0"
    using drawn_total [OF assms(1)] by (simp add: vals_def)
  then show ?thesis
    by (simp add: generate_attribution_def attribution_from_vals_def split_beta Let_def
        breakdown_loop_nonzero vals_def)
qed

lemma shares_sum:
  assumes "t \<noteq> 0" "length srcs = length vs" "sum_list vs = t"
  shows "\<bar>sum_list (map contribution_percent (map (share_of t) (zip srcs vs))) - 100\<bar>
           \<le> real (length vs) / 200"
proof -
  have "map contribution_percent (map (share_of t) (zip srcs vs))
          = map round2 (map (\<lambda>v. (v / t) * 100) (map snd (zip srcs vs)))"
    by (simp add: share_of_def comp_def)
  also have "\<dots> = map round2 (map (\<lambda>v. (v / t) * 100) vs)"
    using assms(2) by simp
  finally have "sum_list (map contribution_percent (map (share_of t) (zip srcs vs)))
                  = sum_list (map round2 (map (\<lambda>v. (v / t) * 100) vs))"
    by simp
  moreover have "sum_list (map (\<lambda>v. (v / t) * 100) vs) = 100"
    unfolding sum_list_shares using assms(1,3) by simp
  moreover have "\<bar>sum_list (map round2 (map (\<lambda>v. (v / t) * 100) vs))
                   - sum_list (map (\<lambda>v. (v / t) * 100) vs)\<bar>
                 \<le> real (length (map (\<lambda>v. (v / t) * 100) vs)) / 200"
    by (rule sum_list_round2)
  ultimately show ?thesis by simp
qed

lemma unit_draws_still: "unit_draws w_still"
  by (simp add: unit_draws_def w_still_def)

lemma still_attribution:
  "fst (generate_attribution ''PM2.5'' w_still) =
     Inr \<lparr>at_pollutant = ''PM2.5'', total = 125,
          breakdown =
            [\<lparr>source = ''Traffic'', contribution_percent = 20, ab_value = 20\<rparr>,
             \<lparr>source = ''Industry'', contribution_percent = 20, ab_value = 20\<rparr>,
             \<lparr>source = ''Construction'', contribution_percent = 20, ab_value = 20\<rparr>,
             \<lparr>source = ''Residential'', contribution_percent = 20, ab_value = 20\<rparr>,
             \<lparr>source = ''Natural'', contribution_percent = 20, ab_value = 20\<rparr>]\<rparr>"
  by (simp add: generate_attribution_def attribution_from_vals_def attribution_sources_def
      draw_step_def uniform_def random_def w_still_def round2_eval Let_def)

text \<open>
  C4. For every attribution call (the draws of the random source lying in the unit
  interval), the generator returns five breakdown entries whose \<open>contribution_percent\<close>
  sum to within 0.1 of 100, and in every entry the \<open>value\<close> field equals
  \<open>contribution_percent\<close>.
\<close>

theorem attribution_percentages:
  "unit_draws w \<Longrightarrow>
     \<exists>a. fst (generate_attribution p w) = Inr a \<and>
         length (breakdown a) = 5 \<and>
         \<bar>sum_list (map contribution_percent (breakdown a)) - 100\<bar> \<le> 1 / 10 \<and>
         (\<forall>b \<in> set (breakdown a). ab_value b = contribution_percent b)"
proof -
  assume draws: "unit_draws w"
  define vals where "vals = fst (foldl draw_step ([], w) attribution_sources)"
  define a where "a = \<lparr>at_pollutant = p, total = round2 (sum_list vals),
      breakdown = map (share_of (sum_list vals)) (zip attribution_sources vals)\<rparr>"
  have ret: "fst (generate_attribution p w) = Inr a"
    unfolding a_def vals_def by (rule generate_attribution_eq [OF draws])
  have "length vals = 5"
    by (simp add: vals_def drawn_vals)
  moreover have "length attribution_sources = 5"
    by (simp add: attribution_sources_def)
  ultimately have len: "length vals = 5" "length attribution_sources = 5" .
  have nz: "sum_list vals \<noteq> 0"
    using drawn_total [OF draws] by (simp add: vals_def)
  have "\<bar>sum_list (map contribution_percent (breakdown a)) - 100\<bar> \<le> real (length vals) / 200"
    unfolding a_def using shares_sum [OF nz, of attribution_sources] len by simp
  then have sum: "\<bar>sum_list (map contribution_percent (breakdown a)) - 100\<bar> \<le> 1 / 10"
    using len by simp
  have same: "\<forall>b \<in> set (breakdown a). ab_value b = contribution_percent b"
    by (auto simp: a_def share_of_def)
  have "length (breakdown a) = 5"
    using len by (simp add: a_def)
  with ret sum same show ?thesis by blast
qed

theorem attribution_percentages_witness:
  "unit_draws w_still \<and>
   (\<exists>a. fst (generate_attribution ''PM2.5'' w_still) = Inr a \<and>
        map contribution_percent (breakdown a) = [20, 20, 20, 20, 20] \<and>
        map ab_value (breakdown a) = [20, 20, 20, 20, 20] \<and>
        \<bar>sum_list (map contribution_percent (breakdown a)) - 100\<bar> \<le> 1 / 10)"
  using attribution_percentages [OF unit_draws_still, of "''PM2.5''"] unit_draws_still
  by (auto simp: still_attribution)





section \<open>Particulate prefix\<close>







section \<open>Station pages\<close>

lemma take_drop_clamped:
  "take (min (b + l) (length xs) - min b (length xs)) (drop (min b (length xs)) xs)
     = take l (drop b xs)"
proof (cases "b \<le> length xs")
  case False
  then show ?thesis by simp
next
  case True
  show ?thesis
  proof (cases "b + l \<le> length xs")
    case True
    with \<open>b \<le> length xs\<close> show ?thesis by (simp add: min_def)
  next
    case False
    with True have "length (drop b xs) \<le> l" by simp
    then have "take l (drop b xs) = drop b xs" by simp
    moreover have "take (length xs - b) (drop b xs) = drop b xs" by simp
    ultimately show ?thesis using True False by (simp add: min_def)
  qed
qed

lemma py_slice_nonneg:
  "0 \<le> offset \<Longrightarrow> 0 \<le> limit \<Longrightarrow>
     py_slice xs offset (offset + limit) = take (nat limit) (drop (nat offset) xs)"
proof -
  assume nn: "0 \<le> offset" "0 \<le> limit"
  then have "nat (offset + limit) = nat offset + nat limit" by (simp add: nat_add_distrib)
  then have "py_slice xs offset (offset + limit) =
        take (min (nat offset + nat limit) (length xs) - min (nat offset) (length xs))
          (drop (min (nat offset) (length xs)) xs)"
    using nn by (simp add: py_slice_def slice_index_def Let_def)
  then show ?thesis by (simp only: take_drop_clamped)
qed

lemma py_slice_beyond:
  "int (length xs) \<le> offset \<Longrightarrow> py_slice xs offset stop = []"
  by (simp add: py_slice_def slice_index_def Let_def)

lemma list_stations_eq:
  "list_stations stations rg limit offset =
     py_slice (filter (\<lambda>s. \<forall>r. region_given rg r \<longrightarrow> region s = r) stations)
       offset (offset + limit)"
proof (cases rg)
  case None
  then show ?thesis by (simp add: list_stations_def region_given_def)
next
  case (Some r)
  then show ?thesis by (cases "r = []") (simp_all add: list_stations_def region_given_def)
qed

text \<open>
  C9, as the code has it. The filter is applied only for a region that is true as a Python
  value: an empty region string leaves all stations in, though no station has that region.
\<close>

theorem list_stations_empty_region_counterexample:
  "list_stations STATIONS (Some []) 50 0 = STATIONS \<and>
   py_slice (filter (\<lambda>s. region s = []) STATIONS) 0 (0 + 50) = [] \<and>
   STATIONS \<noteq> []"
  by (simp add: list_stations_def STATIONS_def py_slice_def slice_index_def)

text \<open>
  C9, in the form that holds. For every call to \<open>list_stations\<close>, the result is the station
  collection, filtered by exact region match when a non-empty region is given (an absent or
  empty region keeps every station), then sliced from \<open>offset\<close> to \<open>offset + limit\<close>; for
  a non-negative offset and limit that is: \<open>offset\<close> stations dropped and at most
  \<open>limit\<close> taken. An offset at or beyond the collection size yields the empty page. On
  the two seeded stations, region \<open>Delhi NCR\<close> with limit 1 and offset 0 returns exactly
  the first station, and offset 5 returns the empty list.
\<close>

theorem list_stations_page:
  "list_stations stations rg limit offset =
     py_slice (filter (\<lambda>s. \<forall>r. region_given rg r \<longrightarrow> region s = r) stations)
       offset (offset + limit) \<and>
   (0 \<le> offset \<and> 0 \<le> limit \<longrightarrow>
      list_stations stations rg limit offset =
        take (nat limit) (drop (nat offset)
          (filter (\<lambda>s. \<forall>r. region_given rg r \<longrightarrow> region s = r) stations))) \<and>
   (int (length stations) \<le> offset \<longrightarrow> list_stations stations rg limit offset = []) \<and>
   list_stations STATIONS (Some ''Delhi NCR'') 1 0 = [STATIONS ! 0] \<and>
   list_stations STATIONS rg limit 5 = []"
proof -
  let ?sel = "\<lambda>st. filter (\<lambda>s. \<forall>r. region_given rg r \<longrightarrow> region s = r) st"
  have beyond: "list_stations st rg limit off = []" if "int (length st) \<le> off" for st off
  proof -
    have "length (?sel st) \<le> length st" by simp
    with that have "int (length (?sel st)) \<le> off" by linarith
    then show ?thesis unfolding list_stations_eq by (rule py_slice_beyond)
  qed
  have first: "list_stations STATIONS (Some ''Delhi NCR'') 1 0 = [STATIONS ! 0]"
    by (simp add: list_stations_def STATIONS_def py_slice_def slice_index_def)
  have five: "list_stations STATIONS rg limit 5 = []"
    by (rule beyond) (simp add: STATIONS_def)
  show ?thesis
    using beyond first five by (simp add: list_stations_eq py_slice_nonneg)
qed

theorem list_stations_page_witness:
  "list_stations STATIONS (Some ''Delhi NCR'') 1 1 = [STATIONS ! 1] \<and>
   list_stations STATIONS (Some ''Mumbai'') 50 0 = [] \<and>
   list_stations STATIONS None 50 2 = []"
proof -
  have sel: "filter (\<lambda>s. \<forall>r. region_given (Some ''Delhi NCR'') r \<longrightarrow> region s = r) STATIONS
               = STATIONS"
     "filter (\<lambda>s. \<forall>r. region_given (Some ''Mumbai'') r \<longrightarrow> region s = r) STATIONS = []"
    by (simp_all add: region_given_def STATIONS_def)
  have nonneg: "(0::int) \<le> 1 \<and> (0::int) \<le> 1" "(0::int) \<le> 0 \<and> (0::int) \<le> 50"
    by simp_all
  have len: "int (length STATIONS) \<le> 2" by (simp add: STATIONS_def)
  have "list_stations STATIONS (Some ''Delhi NCR'') 1 1 = take (nat 1) (drop (nat 1) STATIONS)"
    using list_stations_page [of STATIONS "Some ''Delhi NCR''" 1 1, THEN conjunct2, THEN conjunct1]
      nonneg(1) by (simp only: sel)
  then have a: "list_stations STATIONS (Some ''Delhi NCR'') 1 1 = [STATIONS ! 1]"
    by (simp add: STATIONS_def)
  have "list_stations STATIONS (Some ''Mumbai'') 50 0 = take (nat 50) (drop (nat 0) [])"
    using list_stations_page [of STATIONS "Some ''Mumbai''" 50 0, THEN conjunct2, THEN conjunct1]
      nonneg(2) by (simp only: sel)
  then have b: "list_stations STATIONS (Some ''Mumbai'') 50 0 = []"
    by simp
  have c: "list_stations STATIONS None 50 2 = []"
    using list_stations_page
      [of STATIONS None 50 2, THEN conjunct2, THEN conjunct2, THEN conjunct1] len
    by blast
  show ?thesis
    using a b c by blast
qed

section \<open>Alert filters\<close>

lemma since_filter_naive:
  "\<forall>a \<in> set alerts. \<exists>t. al_ts a = Naive t \<Longrightarrow>
     since_filter (Naive c) alerts = Inr (filter (\<lambda>a. c \<le> micros (al_ts a)) alerts)"
  by (induction alerts) auto

lemma list_ex_station: "list_ex (\<lambda>s. region s = r \<and> station_id s = al_station_id a) stations
    = station_in_region stations r a"
  by (simp add: station_in_region_def list_ex_iff)

lemma region_filter_eq:
  "(case rg of
      None \<Rightarrow> alerts
    | Some r \<Rightarrow>
        if r = [] then alerts
        else filter (\<lambda>a. list_ex (\<lambda>s. region s = r \<and> station_id s = al_station_id a)
                       stations) alerts)
   = filter (\<lambda>a. \<forall>r. region_given rg r \<longrightarrow> station_in_region stations r a) alerts"
proof (cases rg)
  case None
  then show ?thesis by (simp add: region_given_def)
next
  case (Some r)
  then show ?thesis by (cases "r = []") (simp_all add: region_given_def list_ex_station)
qed

lemma list_alerts_none:
  "list_alerts stations alerts rg None
     = Inr (filter (\<lambda>a. \<forall>r. region_given rg r \<longrightarrow> station_in_region stations r a) alerts)"
  unfolding list_alerts_def Let_def region_filter_eq by simp

lemma demo_alerts_naive: "\<forall>a \<in> set demo_alerts. \<exists>t. al_ts a = Naive t"
  by (simp add: demo_alerts_def ALERTS_def)

lemma demo_alerts_regions:
  "filter (\<lambda>a. \<forall>r. region_given (Some ''Delhi NCR'') r \<longrightarrow> station_in_region STATIONS r a)
     demo_alerts = ALERTS 100"
  "filter (\<lambda>a. \<forall>r. region_given (Some ''Nowhere'') r \<longrightarrow> station_in_region STATIONS r a)
     demo_alerts = []"
  "filter (\<lambda>a. (\<forall>r. region_given None r \<longrightarrow> station_in_region STATIONS r a) \<and>
                 60 \<le> micros (al_ts a)) demo_alerts = ALERTS 100"
  by (simp_all add: region_given_def station_in_region_def demo_alerts_def ALERTS_def
      STATIONS_def)

text \<open>
  C8, as the code has it. An empty region string is given but filters nothing: the seeded
  alert is returned although no station has the empty region. A timezone-aware cutoff
  cannot be compared with the naive timestamps of the alerts: the call raises.
\<close>

theorem list_alerts_counterexample:
  "list_alerts STATIONS (ALERTS 0) (Some []) None = Inr (ALERTS 0) \<and>
   filter (station_in_region STATIONS []) (ALERTS 0) = [] \<and>
   ALERTS 0 \<noteq> [] \<and>
   list_alerts STATIONS (ALERTS 0) None (Some (Aware 0 0)) = Inl TypeError"
  by (simp add: list_alerts_def ALERTS_def STATIONS_def station_in_region_def)

text \<open>
  C8, in the form that holds. Without a cutoff \<open>list_alerts\<close> always returns: exactly the alerts whose
  station, looked up by id in the station collection, has the given region when a
  non-empty region is given, and all alerts otherwise. With a naive cutoff and naive alert
  timestamps it returns exactly those of them whose timestamp is at or after the cutoff.
  An alert whose station id resolves to no station is left out of every region-filtered
  result and does not make the call fail.
\<close>

theorem list_alerts_filter:
  "list_alerts stations alerts rg None
     = Inr (filter (\<lambda>a. \<forall>r. region_given rg r \<longrightarrow> station_in_region stations r a) alerts) \<and>
   ((\<forall>a \<in> set alerts. \<exists>t. al_ts a = Naive t) \<longrightarrow>
      list_alerts stations alerts rg (Some (Naive c))
        = Inr (filter (\<lambda>a. (\<forall>r. region_given rg r \<longrightarrow> station_in_region stations r a) \<and>
                            c \<le> micros (al_ts a)) alerts)) \<and>
   (r \<noteq> [] \<and> (\<forall>s \<in> set stations. station_id s \<noteq> al_station_id a) \<longrightarrow>
      (\<exists>out. list_alerts stations alerts (Some r) None = Inr out \<and> a \<notin> set out))"
proof -
  let ?ok = "\<lambda>a. \<forall>r. region_given rg r \<longrightarrow> station_in_region stations r a"
  have none: "list_alerts stations alerts rg None = Inr (filter ?ok alerts)"
    by (rule list_alerts_none)
  have some: "list_alerts stations alerts rg (Some (Naive c))
        = Inr (filter (\<lambda>a. ?ok a \<and> c \<le> micros (al_ts a)) alerts)"
    if naive: "\<forall>a \<in> set alerts. \<exists>t. al_ts a = Naive t"
  proof -
    have "\<forall>a \<in> set (filter ?ok alerts). \<exists>t. al_ts a = Naive t"
      using naive by simp
    then have "since_filter (Naive c) (filter ?ok alerts)
                 = Inr (filter (\<lambda>a. c \<le> micros (al_ts a)) (filter ?ok alerts))"
      by (rule since_filter_naive)
    then show ?thesis
      unfolding list_alerts_def Let_def region_filter_eq by (simp add: conj_commute)
  qed
  have dangling: "\<exists>out. list_alerts stations alerts (Some r) None = Inr out \<and> a \<notin> set out"
    if "r \<noteq> []" "\<forall>s \<in> set stations. station_id s \<noteq> al_station_id a"
  proof -
    have "\<not> station_in_region stations r a"
      using that(2) by (auto simp: station_in_region_def)
    then show ?thesis
      using that(1) by (simp add: list_alerts_none region_given_def)
  qed
  show ?thesis
    using none some dangling by blast
qed

theorem list_alerts_filter_witness:
  "map al_ts demo_alerts = [Naive 100, Naive 50] \<and>
   list_alerts STATIONS demo_alerts (Some ''Delhi NCR'') None = Inr (ALERTS 100) \<and>
   list_alerts STATIONS demo_alerts (Some ''Nowhere'') None = Inr [] \<and>
   list_alerts STATIONS demo_alerts None (Some (Naive 60)) = Inr (ALERTS 100) \<and>
   al_station_id (demo_alerts ! 1) \<notin> set (map station_id STATIONS) \<and>
   (\<exists>out. list_alerts STATIONS demo_alerts (Some ''Delhi NCR'') None = Inr out \<and>
          demo_alerts ! 1 \<notin> set out)"
proof -
  have unknown: "\<forall>s \<in> set STATIONS. station_id s \<noteq> al_station_id (demo_alerts ! 1)"
    by (simp add: STATIONS_def demo_alerts_def ALERTS_def)
  have region: "''Delhi NCR'' \<noteq> []" by simp
  note delhi = list_alerts_filter
    [of STATIONS demo_alerts "Some ''Delhi NCR''" 60 "''Delhi NCR''" "demo_alerts ! 1"]
  note nowhere = list_alerts_filter
    [of STATIONS demo_alerts "Some ''Nowhere''" 60 "''Nowhere''" "demo_alerts ! 1"]
  note cutoff = list_alerts_filter
    [of STATIONS demo_alerts None 60 "''Delhi NCR''" "demo_alerts ! 1"]
  have a: "list_alerts STATIONS demo_alerts (Some ''Delhi NCR'') None = Inr (ALERTS 100)"
    using delhi [THEN conjunct1] by (simp add: demo_alerts_regions)
  have b: "list_alerts STATIONS demo_alerts (Some ''Nowhere'') None = Inr []"
    using nowhere [THEN conjunct1] by (simp add: demo_alerts_regions)
  have c: "list_alerts STATIONS demo_alerts None (Some (Naive 60)) = Inr (ALERTS 100)"
    using cutoff [THEN conjunct2, THEN conjunct1] demo_alerts_naive
    by (simp add: demo_alerts_regions)
  have d: "\<exists>out. list_alerts STATIONS demo_alerts (Some ''Delhi NCR'') None = Inr out \<and>
          demo_alerts ! 1 \<notin> set out"
    using delhi [THEN conjunct2, THEN conjunct2] region unknown by blast
  have e: "map al_ts demo_alerts = [Naive 100, Naive 50]"
    by (simp add: demo_alerts_def ALERTS_def)
  have f: "al_station_id (demo_alerts ! 1) \<notin> set (map station_id STATIONS)"
    by (simp add: STATIONS_def demo_alerts_def ALERTS_def)
  show ?thesis
    using a b c d e f by blast
qed

section \<open>Image and document of a chart\<close>








section \<open>Risk categories\<close>

lemma category_ok_built:
  "category_ok
     \<lparr>rs_pollutant = p, score_0_100 = sc,
      category = (if sc < 33 then ''Low'' else if sc < 66 then ''Moderate'' else ''High''),
      threshold_used = t\<rparr>"
  by (simp add: category_ok_def)

lemma risk_step_keeps:
  "\<forall>s \<in> set (fst acc). category_ok s \<Longrightarrow> \<forall>s \<in> set (fst (risk_step acc p)). category_ok s"
  by (cases acc) (auto simp: risk_step_def Let_def split_beta category_ok_built)

lemma foldl_risk_step_keeps:
  "\<forall>s \<in> set (fst acc). category_ok s \<Longrightarrow>
   \<forall>s \<in> set (fst (foldl risk_step acc ps)). category_ok s"
proof (induction ps arbitrary: acc)
  case Nil
  then show ?case by simp
next
  case (Cons p ps)
  from Cons.prems have "\<forall>s \<in> set (fst (risk_step acc p)). category_ok s"
    by (rule risk_step_keeps)
  then show ?case using Cons.IH by simp
qed

lemma demo_scores:
  "fst (generate_risk_scores ''Delhi NCR'' w_demo) =
     [\<lparr>rs_pollutant = ''PM2.5'', score_0_100 = 18, category = ''Low'', threshold_used = 50\<rparr>,
      \<lparr>rs_pollutant = ''PM10'', score_0_100 = 50, category = ''Moderate'', threshold_used = 50\<rparr>,
      \<lparr>rs_pollutant = ''NO2'', score_0_100 = 82, category = ''High'', threshold_used = 40\<rparr>,
      \<lparr>rs_pollutant = ''O3'', score_0_100 = 82, category = ''High'', threshold_used = 40\<rparr>]"
  by (simp add: generate_risk_scores_def risk_step_def uniform_def random_def w_demo_def
      startswith_def round2_eval)

text \<open>
  C5. Every risk score returned by \<open>generate_risk_scores\<close> carries the category that its
  score determines: \<open>Low\<close> exactly when the score is below 33, \<open>Moderate\<close> exactly when it
  is at least 33 and below 66, \<open>High\<close> exactly when it is at least 66; the category is one
  of the three, and the three conditions exclude each other.
\<close>

theorem risk_category_cut_points:
  "s \<in> set (fst (generate_risk_scores rg w)) \<Longrightarrow>
     (category s = ''Low'') = (score_0_100 s < 33) \<and>
     (category s = ''Moderate'') = (33 \<le> score_0_100 s \<and> score_0_100 s < 66) \<and>
     (category s = ''High'') = (66 \<le> score_0_100 s) \<and>
     category s \<in> {''Low'', ''Moderate'', ''High''}"
proof -
  assume member: "s \<in> set (fst (generate_risk_scores rg w))"
  have "\<forall>s \<in> set (fst (foldl risk_step ([], w) [''PM2.5'', ''PM10'', ''NO2'', ''O3''])).
          category_ok s"
    by (rule foldl_risk_step_keeps) simp
  with member have "category_ok s"
    unfolding generate_risk_scores_def by blast
  then show ?thesis
    unfolding category_ok_def by blast
qed

theorem risk_category_cut_points_witness:
  "(let s = fst (generate_risk_scores ''Delhi NCR'' w_demo) ! 1
    in s \<in> set (fst (generate_risk_scores ''Delhi NCR'' w_demo)) \<and>
       score_0_100 s = 50 \<and> category s = ''Moderate'' \<and>
       category s \<noteq> ''Low'' \<and> category s \<noteq> ''High'')"
  using risk_category_cut_points
    [of "fst (generate_risk_scores ''Delhi NCR'' w_demo) ! 1" "''Delhi NCR''" w_demo]
  by (simp add: demo_scores)

end
